theory Spec2Isabelle
  imports Complex_Main "HOL-Library.AList"
begin

unbundle bit_operations_syntax

section \<open>Data model\<close>

text \<open>
  The exceptions the modelled code raises. Every \<^verbatim>\<open>raise\<close>, failed lookup and failed
  unpacking of the source is a value \<open>Inl e\<close> of the result.
\<close>

datatype error =
    KeyError | ValueError | TypeError | AttributeError | IndexError
  | NotImplementedError | UnboundLocalError | Exception

text \<open>
  The argument of an indexed access: a blade key in binary representation or a canonical
  name. Python dictionaries accept both as keys, so both tables of the descriptor are
  maps from \<open>item\<close>.
\<close>

datatype item = Key int | Name string

text \<open>
  \<^verbatim>\<open>MultiVector\<close> (multivector.py): the two aligned tuples \<^verbatim>\<open>_keys\<close> and
  \<^verbatim>\<open>_values\<close>. The reference to the algebra is passed to every operation explicitly.
\<close>

record 'a MultiVector =
  keys_mv :: "int list"
  values_mv :: "'a list"

text \<open>The right operand of an arithmetic operator: a multivector or a bare coefficient.\<close>

datatype 'a operand = MV "'a MultiVector" | Scalar 'a

text \<open>
  The algebra descriptor (kingdon/algebra.py, consumed read-only): its tables and counts
  are fields, with the flags \<open>cse\<close> and \<open>numba\<close> of the specialiser; \<open>gp\<close> and \<open>div_alg\<close>
  are the descriptor's product and division, to which \<^verbatim>\<open>__mul__\<close> and
  \<^verbatim>\<open>__truediv__\<close> delegate.
\<close>

record 'a Algebra =
  d :: nat
  r :: nat
  len_alg :: int
  signs :: "int \<Rightarrow> int \<Rightarrow> int"
  bin2canon :: "item \<rightharpoonup> string"
  canon2bin :: "item \<rightharpoonup> int"
  indices_for_grades :: "nat list \<Rightarrow> int list"
  pss :: "'a MultiVector"
  cse :: bool
  numba :: bool
  gp :: "'a MultiVector \<Rightarrow> 'a MultiVector \<Rightarrow> error + 'a MultiVector"
  div_alg :: "'a MultiVector \<Rightarrow> 'a operand \<Rightarrow> error + 'a MultiVector"

text \<open>
  What a derivation entry point of codegen.py hands back: a dictionary of expressions, a
  pair of output keys and a callable (of type \<open>'f\<close>), or, for the anticommutator, an
  exception class.
\<close>

datatype ('a, 'f) codegen_result =
    Symbolic "(int \<times> 'a) list"
  | Lambdified "int list" 'f
  | ErrorClass error

section \<open>Dictionaries with insertion order\<close>

text \<open>
  A Python \<^verbatim>\<open>dict\<close> is an association list with distinct keys in insertion order;
  \<open>AList.update\<close> overwrites in place or appends, as \<^verbatim>\<open>d[k] = v\<close> does.
  \<open>dict_of\<close> is \<^verbatim>\<open>dict(pairs)\<close>.
\<close>

definition dict_of :: "('k \<times> 'v) list \<Rightarrow> ('k \<times> 'v) list" where
  "dict_of kvs = fold (\<lambda>(k, v). AList.update k v) kvs []"

definition items :: "'a MultiVector \<Rightarrow> (int \<times> 'a) list" where
  "items x = zip (keys_mv x) (values_mv x)"

text \<open>
  codegen.py reads its operands through the attribute \<^verbatim>\<open>vals\<close>. \<^verbatim>\<open>MultiVector\<close> has the
  fields \<^verbatim>\<open>algebra\<close>, \<^verbatim>\<open>_values\<close> and \<^verbatim>\<open>_keys\<close> and the methods \<^verbatim>\<open>keys\<close>,
  \<^verbatim>\<open>values\<close> and \<^verbatim>\<open>items\<close>; it defines no attribute \<^verbatim>\<open>vals\<close> and no
  \<^verbatim>\<open>__getattr__\<close>, so reading \<^verbatim>\<open>x.vals\<close> raises \<^verbatim>\<open>AttributeError\<close>, whatever the
  multivector holds.
\<close>

definition vals :: "'a MultiVector \<Rightarrow> error + (int \<times> 'a) list" where
  "vals x = Inl AttributeError"

definition fromkeysvalues :: "int list \<Rightarrow> 'a list \<Rightarrow> 'a MultiVector" where
  "fromkeysvalues ks vs = \<lparr>keys_mv = ks, values_mv = vs\<rparr>"

text \<open>The data-model invariant: distinct keys, one value per key.\<close>

definition wf_mv :: "'a MultiVector \<Rightarrow> bool" where
  "wf_mv x \<longleftrightarrow> distinct (keys_mv x) \<and> length (keys_mv x) = length (values_mv x)"

section \<open>MultiVector operations\<close>

text \<open>\<^verbatim>\<open>tuple.index\<close>: the first position of the key, or \<^verbatim>\<open>ValueError\<close>.\<close>

fun index_of :: "int list \<Rightarrow> int \<Rightarrow> nat option" where
  "index_of [] k = None"
| "index_of (a # as) k = (if a = k then Some 0 else map_option Suc (index_of as k))"

text \<open>
  \<^verbatim>\<open>key = key if key in self.algebra.bin2canon else self.algebra.canon2bin[key]\<close>.
  An item found in \<^verbatim>\<open>bin2canon\<close> is used as it is; a name is never equal to a stored
  (integer) key, so the later search for it fails.
\<close>

definition resolve :: "'a Algebra \<Rightarrow> item \<Rightarrow> error + item" where
  "resolve alg it =
     (if it \<in> dom (bin2canon alg) then Inr it
      else (case canon2bin alg it of None \<Rightarrow> Inl KeyError | Some k \<Rightarrow> Inr (Key k)))"

text \<open>
  \<^verbatim>\<open>MultiVector.__getitem__\<close> for an item that is neither a tuple nor a slice, on
  coefficients held in a tuple.
\<close>

definition getitem :: "'a Algebra \<Rightarrow> ('a::zero) MultiVector \<Rightarrow> item \<Rightarrow> error + 'a" where
  "getitem alg x it =
     (case resolve alg it of
        Inl e \<Rightarrow> Inl e
      | Inr (Name s) \<Rightarrow> Inr 0
      | Inr (Key k) \<Rightarrow>
          (case index_of (keys_mv x) k of
             None \<Rightarrow> Inr 0
           | Some n \<Rightarrow> if n < length (values_mv x) then Inr (values_mv x ! n) else Inl IndexError))"

text \<open>\<^verbatim>\<open>MultiVector.__neg__\<close> on a tuple of values.\<close>

definition neg :: "('a::uminus) MultiVector \<Rightarrow> 'a MultiVector" where
  "neg x = fromkeysvalues (keys_mv x) (map uminus (values_mv x))"

text \<open>
  \<^verbatim>\<open>MultiVector.__add__\<close>: a bare coefficient is wrapped as the multivector with the
  single key 0; then the other side's items are merged into \<^verbatim>\<open>dict(self.items())\<close>.
\<close>

definition as_mv :: "'a operand \<Rightarrow> 'a MultiVector" where
  "as_mv other = (case other of MV m \<Rightarrow> m | Scalar s \<Rightarrow> fromkeysvalues [0] [s])"

definition add_item :: "int \<times> ('a::plus) \<Rightarrow> (int \<times> 'a) list \<Rightarrow> (int \<times> 'a) list" where
  "add_item kv acc =
     (case map_of acc (fst kv) of
        Some u \<Rightarrow> AList.update (fst kv) (u + snd kv) acc
      | None \<Rightarrow> AList.update (fst kv) (snd kv) acc)"

definition add :: "('a::plus) MultiVector \<Rightarrow> 'a operand \<Rightarrow> 'a MultiVector" where
  "add x other =
     (let acc = fold add_item (items (as_mv other)) (dict_of (items x))
      in fromkeysvalues (map fst acc) (map snd acc))"

text \<open>\<^verbatim>\<open>MultiVector.__sub__\<close>: \<^verbatim>\<open>self + (-other)\<close>.\<close>

definition sub :: "('a::{plus,uminus}) MultiVector \<Rightarrow> 'a operand \<Rightarrow> 'a MultiVector" where
  "sub x other = add x (case other of MV m \<Rightarrow> MV (neg m) | Scalar s \<Rightarrow> Scalar (- s))"




text \<open>
  \<^verbatim>\<open>MultiVector.__new__\<close> on a mapping with integer keys and no \<^verbatim>\<open>grades\<close> argument,
  which is how codegen.py and the duals build their results through
  \<^verbatim>\<open>algebra.multivector\<close>: unpacking \<^verbatim>\<open>zip(*values.items())\<close> of an empty mapping
  raises \<^verbatim>\<open>ValueError\<close>, and so does a key outside the algebra.
\<close>

definition multivector :: "'a Algebra \<Rightarrow> (int \<times> 'a) list \<Rightarrow> error + 'a MultiVector" where
  "multivector alg m =
     (if m = [] then Inl ValueError
      else if \<not> set (map fst m) \<subseteq> set (indices_for_grades alg [0..<d alg + 1]) then Inl ValueError
      else Inr (fromkeysvalues (map fst m) (map snd m)))"

text \<open>\<^verbatim>\<open>MultiVector.dual\<close> and \<^verbatim>\<open>MultiVector.undual\<close>.\<close>

definition dual :: "('a::ring_1) Algebra \<Rightarrow> 'a MultiVector \<Rightarrow> string \<Rightarrow> error + 'a MultiVector" where
  "dual alg x kind =
     (if kind = ''polarity'' \<or> (kind = ''auto'' \<and> r alg = 0) then div_alg alg x (MV (pss alg))
      else if kind = ''hodge'' \<or> (kind = ''auto'' \<and> r alg = 1) then
        multivector alg
          (dict_of (map (\<lambda>(eI, val). (len_alg alg - 1 - eI,
                                       of_int (signs alg eI (len_alg alg - 1 - eI)) * val))
                        (items x)))
      else if kind = ''auto'' then Inl Exception
      else Inl ValueError)"

definition undual :: "('a::ring_1) Algebra \<Rightarrow> 'a MultiVector \<Rightarrow> string \<Rightarrow> error + 'a MultiVector" where
  "undual alg x kind =
     (if kind = ''polarity'' \<or> (kind = ''auto'' \<and> r alg = 0) then gp alg x (pss alg)
      else if kind = ''hodge'' \<or> (kind = ''auto'' \<and> r alg = 1) then
        multivector alg
          (dict_of (map (\<lambda>(eI, val). (len_alg alg - 1 - eI,
                                       of_int (signs alg (len_alg alg - 1 - eI) eI) * val))
                        (items x)))
      else if kind = ''auto'' then Inl Exception
      else Inl ValueError)"

section \<open>Operator derivation (codegen.py)\<close>

text \<open>\<^verbatim>\<open>codegen_acp\<close>: the body is \<^verbatim>\<open>return NotImplementedError\<close>.\<close>

definition codegen_acp :: "'a MultiVector \<Rightarrow> 'a MultiVector \<Rightarrow> error + ('a, 'f) codegen_result" where
  "codegen_acp x y = Inr (ErrorClass NotImplementedError)"

text \<open>
  \<^verbatim>\<open>res_vals[k] += t\<close> on a \<^verbatim>\<open>defaultdict(int)\<close>: a missing key starts from 0 and is
  appended.
\<close>

definition dd_add :: "(int \<times> ('a::{zero,plus})) list \<Rightarrow> int \<Rightarrow> 'a \<Rightarrow> (int \<times> 'a) list" where
  "dd_add res k t = AList.update k ((case map_of res k of None \<Rightarrow> 0 | Some v \<Rightarrow> v) + t) res"

text \<open>
  The accumulation loop of \<^verbatim>\<open>codegen_gp\<close> over the product of the items of the two
  mappings.
\<close>

definition gp_step :: "('a::ring_1) Algebra \<Rightarrow> (int \<times> 'a) \<times> (int \<times> 'a) \<Rightarrow> (int \<times> 'a) list \<Rightarrow> (int \<times> 'a) list" where
  "gp_step alg p res =
     (case p of ((ei, vi), (ej, vj)) \<Rightarrow>
        if signs alg ei ej \<noteq> 0 then dd_add res (ei XOR ej) (of_int (signs alg ei ej) * vi * vj)
        else res)"

definition gp_accumulate :: "('a::ring_1) Algebra \<Rightarrow> (int \<times> 'a) list \<Rightarrow> (int \<times> 'a) list \<Rightarrow> (int \<times> 'a) list" where
  "gp_accumulate alg xv yv = fold (gp_step alg) (List.product xv yv) []"

text \<open>
  \<^verbatim>\<open>{k: simp_expr for k, expr in res_vals.items() if (simp_expr := simplify(expr))}\<close>:
  \<open>simplify\<close> is the symbolic engine, a parameter; an expression is falsy exactly when it
  is the zero of the coefficients.
\<close>

definition remove_zero :: "('a \<Rightarrow> 'a::zero) \<Rightarrow> (int \<times> 'a) list \<Rightarrow> (int \<times> 'a) list" where
  "remove_zero simplify res =
     map (\<lambda>(k, e). (k, simplify e)) (filter (\<lambda>(k, e). simplify e \<noteq> 0) res)"

text \<open>
  \<^verbatim>\<open>_lambdify_binary\<close> and \<^verbatim>\<open>_lambdify_unary\<close>. Both read \<^verbatim>\<open>x.vals\<close> for the
  parameters first. \<open>lambdify\<close> is the compiler of the symbolic engine, a parameter: it
  takes the flag \<^verbatim>\<open>cse\<close>, the parameter lists and the expressions, and may refuse them;
  \<open>njit\<close> is the just-in-time compiler, applied when the descriptor asks for it.
\<close>

definition lambdify_binary ::
  "(bool \<Rightarrow> 'a list list \<Rightarrow> 'a list \<Rightarrow> error + 'f) \<Rightarrow> ('f \<Rightarrow> 'f) \<Rightarrow> 'a Algebra
     \<Rightarrow> 'a MultiVector \<Rightarrow> 'a MultiVector \<Rightarrow> (int \<times> 'a) list \<Rightarrow> error + ('a, 'f) codegen_result" where
  "lambdify_binary lambdify njit alg x y vs =
     (case vals x of
        Inl e \<Rightarrow> Inl e
      | Inr xv \<Rightarrow>
          (case vals y of
             Inl e \<Rightarrow> Inl e
           | Inr yv \<Rightarrow>
               (case lambdify (cse alg) [map snd xv, map snd yv] (map snd vs) of
                  Inl e \<Rightarrow> Inl e
                | Inr func \<Rightarrow> Inr (Lambdified (map fst vs) (if numba alg then njit func else func)))))"


text \<open>
  \<^verbatim>\<open>codegen_gp\<close>: the mappings \<^verbatim>\<open>x.vals\<close> and \<^verbatim>\<open>y.vals\<close> are read when the loop
  starts.
\<close>

definition codegen_gp ::
  "(bool \<Rightarrow> 'a list list \<Rightarrow> 'a list \<Rightarrow> error + 'f) \<Rightarrow> ('f \<Rightarrow> 'f) \<Rightarrow> ('a::ring_1) Algebra \<Rightarrow> ('a \<Rightarrow> 'a)
     \<Rightarrow> 'a MultiVector \<Rightarrow> 'a MultiVector \<Rightarrow> bool \<Rightarrow> error + ('a, 'f) codegen_result" where
  "codegen_gp lambdify njit alg simplify x y symbolic =
     (case vals x of
        Inl e \<Rightarrow> Inl e
      | Inr xv \<Rightarrow>
          (case vals y of
             Inl e \<Rightarrow> Inl e
           | Inr yv \<Rightarrow>
               (let res_vals = remove_zero simplify (gp_accumulate alg xv yv)
                in if symbolic then Inr (Symbolic res_vals)
                   else lambdify_binary lambdify njit alg x y res_vals)))"

text \<open>
  \<^verbatim>\<open>codegen_inv\<close>. The constant of Shirokov's method,
  \<^verbatim>\<open>k = 2 ** ((x.algebra.d + 1) // 2)\<close>:
\<close>

definition inv_k :: "'a Algebra \<Rightarrow> nat" where
  "inv_k alg = 2 ^ ((d alg + 1) div 2)"


text \<open>
  The first two statements of the body: \<^verbatim>\<open>c_i = k * x_i[0] / i\<close> and
  \<^verbatim>\<open>adj_x = (x_i - c_i)\<close>.
\<close>

definition inv_adjoint ::
  "('a::field_char_0) Algebra \<Rightarrow> 'a MultiVector \<Rightarrow> nat \<Rightarrow> error + 'a MultiVector" where
  "inv_adjoint alg x_i i =
     (case getitem alg x_i (Key 0) of
        Inl e \<Rightarrow> Inl e
      | Inr s \<Rightarrow> (let c_i = of_nat (inv_k alg) * s / of_nat i in Inr (sub x_i (Scalar c_i))))"






text \<open>
  The geometric product in the words of the specification: the contributions
  \<open>sign(ei, ej) * vi * vj\<close> of the pairs of active entries with a non-zero sign whose
  combined key \<open>ei XOR ej\<close> is \<open>k\<close>.
\<close>

definition gp_spec_terms :: "('a::ring_1) Algebra \<Rightarrow> (int \<times> 'a) list \<Rightarrow> (int \<times> 'a) list \<Rightarrow> int \<Rightarrow> 'a list" where
  "gp_spec_terms alg xv yv k =
     map (\<lambda>((ei, vi), (ej, vj)). of_int (signs alg ei ej) * vi * vj)
       (filter (\<lambda>((ei, vi), (ej, vj)). signs alg ei ej \<noteq> 0 \<and> ei XOR ej = k)
          (List.product xv yv))"

section \<open>Calling a multivector\<close>

text \<open>
  \<^verbatim>\<open>MultiVector.free_symbols\<close>:
  \<^verbatim>\<open>reduce(lambda tot, x: tot | x, (v.free_symbols for v in self.values()))\<close>, with no
  initial value. \<open>fs v\<close> is the attribute \<^verbatim>\<open>free_symbols\<close> of a coefficient, \<open>None\<close> for
  a coefficient that has no such attribute (a plain number); reading it there raises
  \<^verbatim>\<open>AttributeError\<close>, and \<^verbatim>\<open>reduce\<close> of an empty sequence raises \<^verbatim>\<open>TypeError\<close>.
\<close>

definition union_symbols :: "('a \<Rightarrow> 's set option) \<Rightarrow> 'a \<Rightarrow> error + 's set \<Rightarrow> error + 's set" where
  "union_symbols fs v tot =
     (case tot of
        Inl e \<Rightarrow> Inl e
      | Inr t \<Rightarrow> (case fs v of None \<Rightarrow> Inl AttributeError | Some s \<Rightarrow> Inr (t \<union> s)))"

definition free_symbols :: "('a \<Rightarrow> 's set option) \<Rightarrow> 'a MultiVector \<Rightarrow> error + 's set" where
  "free_symbols fs x =
     (case values_mv x of
        [] \<Rightarrow> Inl TypeError
      | v # vs \<Rightarrow> fold (union_symbols fs) vs (union_symbols fs v (Inr {})))"

text \<open>
  \<^verbatim>\<open>MultiVector.__call__\<close>. With free symbols, \<^verbatim>\<open>_lambdify_mv\<close> reads \<^verbatim>\<open>mv.vals\<close>
  to build the callable. \<open>evaluate\<close> stands for that callable: it binds the arguments to
  the free symbols, sorted by name, and evaluates one expression; a wrong number of
  arguments is a \<^verbatim>\<open>TypeError\<close>.
\<close>

definition call ::
  "('a \<Rightarrow> ('s::linorder) set option) \<Rightarrow> (('s \<times> 'b) list \<Rightarrow> 'a \<Rightarrow> 'a) \<Rightarrow> 'a MultiVector \<Rightarrow> 'b list
     \<Rightarrow> error + 'a MultiVector" where
  "call fs evaluate x args =
     (case free_symbols fs x of
        Inl e \<Rightarrow> Inl e
      | Inr syms \<Rightarrow>
          if syms = {} then Inr x
          else
            (case vals x of
               Inl e \<Rightarrow> Inl e
             | Inr vs \<Rightarrow>
                 if length args \<noteq> card syms then Inl TypeError
                 else Inr (fromkeysvalues (map fst vs)
                             (map (evaluate (zip (sorted_list_of_set syms) args)) (map snd vs)))))"

section \<open>An example descriptor\<close>

text \<open>
  The tables of the Euclidean algebra of the plane over the rationals: blades
  \<open>1, e1, e2, e12\<close> with keys \<open>0, 1, 2, 3\<close>. Reordering costs a sign in \<open>e2 e1\<close>,
  \<open>e12 e1\<close>, \<open>e2 e12\<close> and \<open>e12 e12\<close>. The product and the division of the descriptor
  belong to kingdon/algebra.py; no statement about this example reaches them, and here
  they raise.
\<close>

definition plane_signs :: "int \<Rightarrow> int \<Rightarrow> int" where
  "plane_signs ei ej = (if (ei, ej) \<in> {(2, 1), (3, 1), (2, 3), (3, 3)} then - 1 else 1)"

definition plane_indices :: "nat list \<Rightarrow> int list" where
  "plane_indices gs =
     concat (map (\<lambda>g. if g = 0 then [0] else if g = 1 then [1, 2] else if g = 2 then [3] else []) gs)"

definition plane :: "rat Algebra" where
  "plane =
     \<lparr>d = 2, r = 0, len_alg = 4, signs = plane_signs,
      bin2canon = [Key 0 \<mapsto> ''e'', Key 1 \<mapsto> ''e1'', Key 2 \<mapsto> ''e2'', Key 3 \<mapsto> ''e12''],
      canon2bin = [Name ''e'' \<mapsto> 0, Name ''e1'' \<mapsto> 1, Name ''e2'' \<mapsto> 2, Name ''e12'' \<mapsto> 3],
      indices_for_grades = plane_indices,
      pss = \<lparr>keys_mv = [3], values_mv = [1]\<rparr>,
      cse = False, numba = False,
      gp = (\<lambda>x y. Inl NotImplementedError),
      div_alg = (\<lambda>x other. Inl NotImplementedError)\<rparr>"

text \<open>The vector \<open>e1\<close>.\<close>

definition e1 :: "rat MultiVector" where
  "e1 = \<lparr>keys_mv = [1], values_mv = [1]\<rparr>"

text \<open>
  The plane with two null directions: blades that share a basis vector multiply to 0.
\<close>

definition null_plane :: "rat Algebra" where
  "null_plane =
     plane\<lparr>r := 2, signs := (\<lambda>ei ej. if ei AND ej \<noteq> 0 then 0 else plane_signs ei ej)\<rparr>"

section \<open>Dictionaries and sums of multivectors\<close>

lemma index_of_None: "index_of ks k = None \<longleftrightarrow> k \<notin> set ks"
  by (induction ks) auto

lemma update_fresh: "k \<notin> fst ` set al \<Longrightarrow> AList.update k v al = al @ [(k, v)]"
  by (induction al) auto

lemma fold_update_distinct:
  "distinct (map fst (acc @ kvs)) \<Longrightarrow> fold (\<lambda>(k, v). AList.update k v) kvs acc = acc @ kvs"
proof (induction kvs arbitrary: acc)
  case Nil
  then show ?case by simp
next
  case (Cons p kvs)
  obtain k v where p: "p = (k, v)" by (cases p)
  from Cons.prems have fresh: "k \<notin> fst ` set acc" by (auto simp: p)
  from Cons.prems have "distinct (map fst ((acc @ [(k, v)]) @ kvs))" by (simp add: p)
  from Cons.IH[OF this] show ?case by (simp add: p update_fresh[OF fresh])
qed

lemma dict_of_distinct: "distinct (map fst kvs) \<Longrightarrow> dict_of kvs = kvs"
  using fold_update_distinct[of "[]" kvs] by (simp add: dict_of_def)

lemma items_wf: "wf_mv x \<Longrightarrow> map fst (items x) = keys_mv x \<and> map snd (items x) = values_mv x"
  by (simp add: wf_mv_def items_def)

lemma dict_of_items: "wf_mv x \<Longrightarrow> dict_of (items x) = items x"
  using items_wf[of x] by (simp add: dict_of_distinct wf_mv_def)

lemma items_fromkeysvalues: "items (fromkeysvalues (map fst al) (map snd al)) = al"
  by (simp add: items_def fromkeysvalues_def zip_map_fst_snd)

lemma map_of_add_item:
  "map_of (add_item (k, b) acc) j =
     (if j = k then (case map_of acc k of None \<Rightarrow> Some b | Some a \<Rightarrow> Some (a + b)) else map_of acc j)"
  by (simp add: add_item_def update_conv' split: option.splits)

lemma keys_add_item: "fst ` set (add_item kv acc) = insert (fst kv) (fst ` set acc)"
  by (simp add: add_item_def dom_update split: option.splits)

lemma distinct_add_item: "distinct (map fst acc) \<Longrightarrow> distinct (map fst (add_item kv acc))"
  by (simp add: add_item_def distinct_update split: option.splits)

lemma map_of_fold_add_item:
  "distinct (map fst ys) \<Longrightarrow>
   map_of (fold add_item ys acc) k =
     (case map_of ys k of
        None \<Rightarrow> map_of acc k
      | Some b \<Rightarrow> (case map_of acc k of None \<Rightarrow> Some b | Some a \<Rightarrow> Some (a + b)))"
proof (induction ys arbitrary: acc)
  case Nil
  then show ?case by simp
next
  case (Cons p ys)
  obtain j b where p: "p = (j, b)" by (cases p)
  from Cons.prems have d: "distinct (map fst ys)" and nj: "j \<notin> fst ` set ys" by (auto simp: p)
  from nj have none: "map_of ys j = None" by (simp add: map_of_eq_None_iff)
  show ?case
    by (simp add: p Cons.IH[OF d] map_of_add_item none split: option.splits)
qed

lemma keys_fold_add_item:
  "fst ` set (fold add_item ys acc) = fst ` set acc \<union> fst ` set ys"
  by (induction ys arbitrary: acc) (auto simp: keys_add_item)

lemma distinct_fold_add_item:
  "distinct (map fst acc) \<Longrightarrow> distinct (map fst (fold add_item ys acc))"
  by (induction ys arbitrary: acc) (auto simp: distinct_add_item)

lemma keys_add:
  "wf_mv x \<Longrightarrow> wf_mv (as_mv other) \<Longrightarrow> set (keys_mv (add x other)) = set (keys_mv x) \<union> set (keys_mv (as_mv other))"
proof -
  assume x: "wf_mv x" and y: "wf_mv (as_mv other)"
  have "set (keys_mv (add x other)) = fst ` set (fold add_item (items (as_mv other)) (items x))"
    by (simp add: add_def Let_def fromkeysvalues_def dict_of_items[OF x])
  also have "\<dots> = fst ` set (items x) \<union> fst ` set (items (as_mv other))"
    by (rule keys_fold_add_item)
  also have "\<dots> = set (keys_mv x) \<union> set (keys_mv (as_mv other))"
    using items_wf[OF x] items_wf[OF y] by (metis set_map)
  finally show ?thesis .
qed

lemma map_of_items_add:
  assumes "wf_mv x" "wf_mv (as_mv other)"
  shows "map_of (items (add x other)) k =
     (case map_of (items (as_mv other)) k of
        None \<Rightarrow> map_of (items x) k
      | Some b \<Rightarrow> (case map_of (items x) k of None \<Rightarrow> Some b | Some a \<Rightarrow> Some (a + b)))"
proof -
  have dx: "dict_of (items x) = items x" using assms(1) by (rule dict_of_items)
  have dy: "distinct (map fst (items (as_mv other)))" using assms(2) items_wf[of "as_mv other"] by (simp add: wf_mv_def)
  show ?thesis
    by (simp add: add_def Let_def items_fromkeysvalues dx map_of_fold_add_item[OF dy])
qed

lemma distinct_fold_update:
  "distinct (map fst acc) \<Longrightarrow> distinct (map fst (fold (\<lambda>(k, v). AList.update k v) kvs acc))"
  by (induction kvs arbitrary: acc) (auto simp: distinct_update)

lemma distinct_dict_of: "distinct (map fst (dict_of kvs))"
  by (simp add: dict_of_def distinct_fold_update)

lemma wf_add: "wf_mv (add x other)"
  by (simp add: add_def Let_def wf_mv_def fromkeysvalues_def distinct_fold_add_item distinct_dict_of)

section \<open>The geometric product\<close>

lemma map_of_dd_add:
  "map_of (dd_add res k t) j =
     (if j = k then Some ((case map_of res k of None \<Rightarrow> 0 | Some v \<Rightarrow> v) + t) else map_of res j)"
  by (simp add: dd_add_def update_conv')

lemma distinct_dd_add: "distinct (map fst res) \<Longrightarrow> distinct (map fst (dd_add res k t))"
  by (simp add: dd_add_def distinct_update)

lemma distinct_fold_gp_step:
  "distinct (map fst acc) \<Longrightarrow> distinct (map fst (fold (gp_step alg) ps acc))"
  by (induction ps arbitrary: acc) (auto simp: gp_step_def distinct_dd_add split: prod.splits)

lemma map_of_fold_gp_step:
  fixes acc :: "(int \<times> 'a::ring_1) list"
  shows "map_of (fold (gp_step alg) ps acc) k =
     (let ts = map (\<lambda>((ei, vi), (ej, vj)). of_int (signs alg ei ej) * vi * vj)
                 (filter (\<lambda>((ei, vi), (ej, vj)). signs alg ei ej \<noteq> 0 \<and> ei XOR ej = k) ps)
      in if ts = [] then map_of acc k
         else Some ((case map_of acc k of None \<Rightarrow> 0 | Some v \<Rightarrow> v) + sum_list ts))"
proof (induction ps arbitrary: acc)
  case Nil
  then show ?case by simp
next
  case (Cons p ps)
  obtain ei vi ej vj where p: "p = ((ei, vi), (ej, vj))" by (metis surj_pair)
  show ?case
  proof (cases "signs alg ei ej \<noteq> 0")
    case False
    then have "fold (gp_step alg) (p # ps) acc = fold (gp_step alg) ps acc"
      by (simp add: p gp_step_def)
    then show ?thesis using False by (simp add: Cons.IH p)
  next
    case True
    then have st: "fold (gp_step alg) (p # ps) acc =
        fold (gp_step alg) ps (dd_add acc (ei XOR ej) (of_int (signs alg ei ej) * vi * vj))"
      by (simp add: p gp_step_def)
    show ?thesis
      unfolding st Cons.IH
      using True by (simp add: p map_of_dd_add Let_def add.assoc)
  qed
qed

lemma map_of_remove_zero:
  "distinct (map fst res) \<Longrightarrow>
   map_of (remove_zero g res) k =
     (case map_of res k of None \<Rightarrow> None | Some e \<Rightarrow> if g e = 0 then None else Some (g e))"
proof (induction res)
  case Nil
  then show ?case by (simp add: remove_zero_def)
next
  case (Cons p res)
  obtain j e where p: "p = (j, e)" by (cases p)
  from Cons.prems have d: "distinct (map fst res)" and nj: "j \<notin> fst ` set res" by (auto simp: p)
  from nj have none: "map_of res j = None" by (simp add: map_of_eq_None_iff)
  have ih: "map_of (remove_zero g res) k =
     (case map_of res k of None \<Rightarrow> None | Some e \<Rightarrow> if g e = 0 then None else Some (g e))"
    by (rule Cons.IH[OF d])
  have unf: "remove_zero g ((j, e) # res) = (if g e \<noteq> 0 then (j, g e) # remove_zero g res else remove_zero g res)"
    by (simp add: remove_zero_def)
  show ?case using ih none by (auto simp: unf p)
qed

lemma keys_remove_zero: "map fst (remove_zero g res) = map fst (filter (\<lambda>(k, e). g e \<noteq> 0) res)"
  by (simp add: remove_zero_def case_prod_beta comp_def)

lemma distinct_remove_zero: "distinct (map fst res) \<Longrightarrow> distinct (map fst (remove_zero g res))"
  by (simp add: keys_remove_zero distinct_map_filter)

lemma nonzero_remove_zero: "0 \<notin> snd ` set (remove_zero g res)"
  by (auto simp: remove_zero_def)

text \<open>
  The loop and the removal of zeros, run on two mappings \<open>xv\<close> and \<open>yv\<close>: the result is
  a dictionary that holds at \<open>k\<close> the simplified sum of the terms \<open>sign(ei, ej) * vi * vj\<close>
  with non-zero sign and \<open>ei XOR ej = k\<close>; a key without such a term, or whose sum
  simplifies to 0, is absent.
\<close>

lemma gp_loop_accumulates_and_drops_zero:
  fixes xv yv :: "(int \<times> 'a::ring_1) list"
  shows "distinct (map fst (remove_zero simplify (gp_accumulate alg xv yv))) \<and>
     0 \<notin> snd ` set (remove_zero simplify (gp_accumulate alg xv yv)) \<and>
     (\<forall>k. map_of (remove_zero simplify (gp_accumulate alg xv yv)) k =
        (let ts = gp_spec_terms alg xv yv k; e = simplify (sum_list ts)
         in if ts = [] \<or> e = 0 then None else Some e))"
proof -
  let ?acc = "gp_accumulate alg xv yv"
  have d: "distinct (map fst ?acc)"
    by (simp add: gp_accumulate_def distinct_fold_gp_step)
  have m: "map_of ?acc k =
      (if gp_spec_terms alg xv yv k = [] then None else Some (sum_list (gp_spec_terms alg xv yv k)))" for k
    by (simp add: gp_accumulate_def map_of_fold_gp_step gp_spec_terms_def Let_def)
  have "distinct (map fst (remove_zero simplify ?acc))"
    by (rule distinct_remove_zero [OF d])
  moreover have "0 \<notin> snd ` set (remove_zero simplify ?acc)"
    by (rule nonzero_remove_zero)
  moreover have "map_of (remove_zero simplify ?acc) k =
        (let ts = gp_spec_terms alg xv yv k; e = simplify (sum_list ts)
         in if ts = [] \<or> e = 0 then None else Some e)" for k
    by (simp add: map_of_remove_zero [OF d] m Let_def)
  ultimately show ?thesis by blast
qed

text \<open>
  C1. \<^verbatim>\<open>codegen_gp\<close> accumulates nothing for a pair of multivectors: its loop starts by
  reading \<^verbatim>\<open>x.vals\<close>, which \<^verbatim>\<open>MultiVector\<close> does not define, and the derivation raises
  \<^verbatim>\<open>AttributeError\<close> for every pair of operands, in symbolic mode and otherwise.
\<close>

theorem codegen_gp_raises_AttributeError:
  "codegen_gp lambdify njit alg simplify x y symbolic = Inl AttributeError"
  by (simp add: codegen_gp_def vals_def)

section \<open>The anticommutator\<close>

text \<open>
  C4. \<^verbatim>\<open>codegen_acp\<close> does not raise: for every pair of operands it returns the class
  \<^verbatim>\<open>NotImplementedError\<close> itself as its result.
\<close>

theorem codegen_acp_returns_error_class:
  "codegen_acp x y = Inr (ErrorClass NotImplementedError) \<and> codegen_acp x y \<noteq> Inl NotImplementedError"
  by (simp add: codegen_acp_def)

section \<open>Addition\<close>

text \<open>
  C5. For a multivector \<open>v\<close> with distinct keys and one value per key, \<open>v + 0\<close> is \<open>v\<close> when
  \<open>v\<close> stores the scalar key 0; when it does not, \<open>v + 0\<close> is \<open>v\<close> followed by the entry of
  key 0 and value 0.
\<close>

theorem add_scalar_zero:
  fixes v :: "('a::monoid_add) MultiVector"
  assumes "wf_mv v"
  shows "(0 \<in> set (keys_mv v) \<longrightarrow> add v (Scalar 0) = v) \<and>
         (0 \<notin> set (keys_mv v) \<longrightarrow> add v (Scalar 0) = fromkeysvalues (keys_mv v @ [0]) (values_mv v @ [0]))"
proof (intro conjI impI)
  have it: "map fst (items v) = keys_mv v" "map snd (items v) = values_mv v"
    using items_wf[OF assms] by simp_all
  have zero: "items (as_mv (Scalar (0::'a))) = [(0, 0)]"
    by (simp add: as_mv_def items_def fromkeysvalues_def)
  have step: "add v (Scalar 0) = (let acc = add_item (0, 0) (items v) in fromkeysvalues (map fst acc) (map snd acc))"
    by (simp add: add_def zero dict_of_items[OF assms])
  {
    assume "0 \<in> set (keys_mv v)"
    then have "0 \<in> fst ` set (items v)" using it(1) by (metis set_map)
    then obtain u where u: "map_of (items v) 0 = Some u"
      by (metis map_of_eq_None_iff not_Some_eq)
    have "add_item (0, 0) (items v) = items v"
      by (simp add: add_item_def u update_triv)
    then show "add v (Scalar 0) = v" by (simp add: step it fromkeysvalues_def)
  }
  {
    assume "0 \<notin> set (keys_mv v)"
    then have fresh: "0 \<notin> fst ` set (items v)" using it(1) by (metis set_map)
    then have "map_of (items v) 0 = None" by (simp add: map_of_eq_None_iff)
    then have "add_item (0, 0) (items v) = items v @ [(0, 0)]"
      by (simp add: add_item_def update_fresh[OF fresh])
    then show "add v (Scalar 0) = fromkeysvalues (keys_mv v @ [0]) (values_mv v @ [0])"
      by (simp add: step it)
  }
qed

theorem add_scalar_zero_witness:
  "wf_mv \<lparr>keys_mv = [0, 1], values_mv = [3, 5 :: int]\<rparr> \<and>
   add \<lparr>keys_mv = [0, 1], values_mv = [3, 5 :: int]\<rparr> (Scalar 0) = \<lparr>keys_mv = [0, 1], values_mv = [3, 5]\<rparr> \<and>
   wf_mv \<lparr>keys_mv = [1], values_mv = [5 :: int]\<rparr> \<and>
   add \<lparr>keys_mv = [1], values_mv = [5 :: int]\<rparr> (Scalar 0) = \<lparr>keys_mv = [1, 0], values_mv = [5, 0]\<rparr>"
proof -
  have a: "wf_mv \<lparr>keys_mv = [0, 1], values_mv = [3, 5 :: int]\<rparr>" by (simp add: wf_mv_def)
  have b: "wf_mv \<lparr>keys_mv = [1], values_mv = [5 :: int]\<rparr>" by (simp add: wf_mv_def)
  show ?thesis
    using a b add_scalar_zero [OF a] add_scalar_zero [OF b] by (simp add: fromkeysvalues_def)
qed

text \<open>The vector \<open>5 e1\<close> does not store the scalar key: adding 0 changes its support.\<close>

theorem add_scalar_zero_changes_support:
  "add \<lparr>keys_mv = [1], values_mv = [5 :: int]\<rparr> (Scalar 0) \<noteq> \<lparr>keys_mv = [1], values_mv = [5]\<rparr> \<and>
   keys_mv (add \<lparr>keys_mv = [1], values_mv = [5 :: int]\<rparr> (Scalar 0)) = [1, 0]"
  by (simp add: add_def as_mv_def items_def fromkeysvalues_def dict_of_def add_item_def)

text \<open>
  C9. For multivectors \<open>x\<close> and \<open>y\<close> with distinct keys and one value per key, the keys of
  \<open>x + y\<close> are exactly the keys of \<open>x\<close> and the keys of \<open>y\<close>; a shared key whose
  coefficients sum to 0 stays in the result, with the value 0.
\<close>

theorem add_support_is_union:
  fixes x y :: "('a::monoid_add) MultiVector"
  assumes "wf_mv x" "wf_mv y"
  shows "set (keys_mv (add x (MV y))) = set (keys_mv x) \<union> set (keys_mv y) \<and>
     (\<forall>k a b. map_of (items x) k = Some a \<and> map_of (items y) k = Some b \<and> a + b = 0 \<longrightarrow>
         k \<in> set (keys_mv (add x (MV y))) \<and> map_of (items (add x (MV y))) k = Some 0)"
proof -
  have y': "wf_mv (as_mv (MV y))" using assms(2) by (simp add: as_mv_def)
  have ks: "set (keys_mv (add x (MV y))) = set (keys_mv x) \<union> set (keys_mv y)"
    using keys_add[OF assms(1) y'] by (simp add: as_mv_def)
  have rd: "map_of (items (add x (MV y))) k = Some 0 \<and> k \<in> set (keys_mv x)"
    if "map_of (items x) k = Some a" "map_of (items y) k = Some b" "a + b = 0" for k a b
  proof -
    have "k \<in> fst ` set (items x)" using that(1) by (metis map_of_eq_None_iff option.distinct(1))
    then have "k \<in> set (keys_mv x)" using items_wf[OF assms(1)] by (metis set_map)
    then show ?thesis using map_of_items_add[OF assms(1) y', of k] that by (simp add: as_mv_def)
  qed
  show ?thesis using ks rd by blast
qed

theorem add_support_is_union_witness:
  "wf_mv \<lparr>keys_mv = [1, 2], values_mv = [3, 4 :: int]\<rparr> \<and>
   wf_mv \<lparr>keys_mv = [2, 4], values_mv = [- 4, 7 :: int]\<rparr> \<and>
   set (keys_mv (add \<lparr>keys_mv = [1, 2], values_mv = [3, 4 :: int]\<rparr>
                     (MV \<lparr>keys_mv = [2, 4], values_mv = [- 4, 7]\<rparr>))) = {1, 2, 4} \<and>
   map_of (items (add \<lparr>keys_mv = [1, 2], values_mv = [3, 4 :: int]\<rparr>
                      (MV \<lparr>keys_mv = [2, 4], values_mv = [- 4, 7]\<rparr>))) 2 = Some 0"
proof -
  let ?x = "\<lparr>keys_mv = [1, 2], values_mv = [3, 4 :: int]\<rparr>"
  let ?y = "\<lparr>keys_mv = [2, 4], values_mv = [- 4, 7 :: int]\<rparr>"
  have a: "wf_mv ?x" by (simp add: wf_mv_def)
  have b: "wf_mv ?y" by (simp add: wf_mv_def)
  have c: "map_of (items ?x) 2 = Some 4 \<and> map_of (items ?y) 2 = Some (- 4) \<and> (4 :: int) + - 4 = 0"
    by (simp add: items_def)
  from add_support_is_union [OF a b]
  have "set (keys_mv (add ?x (MV ?y))) = set (keys_mv ?x) \<union> set (keys_mv ?y)"
    and "map_of (items (add ?x (MV ?y))) 2 = Some 0"
    using c by blast+
  with a b show ?thesis by auto
qed

section \<open>Indexed access\<close>

text \<open>
  C6. For a valid blade key, or a name that the canonical-name table resolves, whose key is
  not among the stored keys of \<open>v\<close>, indexed access returns 0 and raises nothing.
\<close>

theorem getitem_absent_key_is_zero:
  "(it = Key k \<and> Key k \<in> dom (bin2canon alg)) \<or>
   (it \<notin> dom (bin2canon alg) \<and> canon2bin alg it = Some k)
   \<Longrightarrow> k \<notin> set (keys_mv v) \<Longrightarrow> getitem alg v it = Inr (0::'a::zero)"
  by (auto simp: getitem_def resolve_def index_of_None [THEN iffD2] split: option.splits)

theorem getitem_absent_key_is_zero_witness:
  "Name ''e2'' \<notin> dom (bin2canon plane) \<and> canon2bin plane (Name ''e2'') = Some 2 \<and>
   2 \<notin> set (keys_mv e1) \<and> getitem plane e1 (Name ''e2'') = Inr 0"
proof -
  have a: "(Name ''e2'' = Key 2 \<and> Key 2 \<in> dom (bin2canon plane)) \<or>
           (Name ''e2'' \<notin> dom (bin2canon plane) \<and> canon2bin plane (Name ''e2'') = Some 2)"
    by (simp add: plane_def)
  have b: "2 \<notin> set (keys_mv e1)" by (simp add: e1_def)
  show ?thesis using a b getitem_absent_key_is_zero [OF a b] by simp
qed

text \<open>
  C10. An item found in neither the binary-key table nor the canonical-name table makes
  indexed access raise \<^verbatim>\<open>KeyError\<close>, whatever the multivector stores.
\<close>

theorem getitem_unresolvable_raises_KeyError:
  "bin2canon alg it = None \<Longrightarrow> canon2bin alg it = None \<Longrightarrow>
   getitem alg v it = Inl KeyError \<and> getitem alg v it \<noteq> Inr 0"
  by (simp add: getitem_def resolve_def dom_def)

theorem getitem_unresolvable_raises_KeyError_witness:
  "bin2canon plane (Name ''e3'') = None \<and> canon2bin plane (Name ''e3'') = None \<and>
   getitem plane e1 (Name ''e3'') = Inl KeyError"
proof -
  have a: "bin2canon plane (Name ''e3'') = None" by (simp add: plane_def)
  have b: "canon2bin plane (Name ''e3'') = None" by (simp add: plane_def)
  show ?thesis using a b getitem_unresolvable_raises_KeyError [OF a b] by simp
qed

section \<open>Duality\<close>

text \<open>
  C8. In an algebra whose number of degenerate dimensions is neither 0 nor 1, \<^verbatim>\<open>dual\<close>
  and \<^verbatim>\<open>undual\<close> of kind \<^verbatim>\<open>'auto'\<close> raise an exception; no policy is applied.
\<close>

theorem dual_auto_unsupported_raises:
  "r alg \<noteq> 0 \<Longrightarrow> r alg \<noteq> 1 \<Longrightarrow>
   dual alg x ''auto'' = Inl Exception \<and> undual alg x ''auto'' = Inl Exception"
  by (simp add: dual_def undual_def)

theorem dual_auto_unsupported_raises_witness:
  "r null_plane \<noteq> 0 \<and> r null_plane \<noteq> 1 \<and>
   dual null_plane e1 ''auto'' = Inl Exception \<and> undual null_plane e1 ''auto'' = Inl Exception"
proof -
  have a: "r null_plane \<noteq> 0" by (simp add: null_plane_def)
  have b: "r null_plane \<noteq> 1" by (simp add: null_plane_def)
  show ?thesis using a b dual_auto_unsupported_raises [OF a b] by simp
qed

section \<open>Calling a multivector\<close>

text \<open>
  C7. Calling a multivector that holds no free symbols does not always return it: the
  multivector without entries makes \<^verbatim>\<open>reduce\<close> raise \<^verbatim>\<open>TypeError\<close>, and coefficients
  that are plain numbers have no attribute \<^verbatim>\<open>free_symbols\<close>, so the call raises
  \<^verbatim>\<open>AttributeError\<close>.
\<close>

theorem call_without_symbols_raises:
  "call fs evaluate (fromkeysvalues [] []) args = Inl TypeError \<and>
   call (\<lambda>v. None) evaluate \<lparr>keys_mv = [0, 1], values_mv = [1, 2 :: rat]\<rparr> args = Inl AttributeError"
  by (simp add: call_def free_symbols_def fromkeysvalues_def union_symbols_def)

section \<open>The inverse\<close>

lemma index_of_zip:
  "length ks = length vs \<Longrightarrow>
   (case index_of ks k of
      None \<Rightarrow> Inr 0
    | Some n \<Rightarrow> if n < length vs then Inr (vs ! n) else Inl IndexError) =
   (Inr (case map_of (zip ks vs) k of None \<Rightarrow> 0 | Some v \<Rightarrow> v) :: error + 'a::zero)"
proof (induction ks vs rule: list_induct2)
  case Nil
  then show ?case by simp
next
  case (Cons a ks v vs)
  show ?case
  proof (cases "a = k")
    case True
    then show ?thesis by simp
  next
    case False
    with Cons.IH show ?thesis
      by (cases "index_of ks k") (auto split: option.splits if_splits)
  qed
qed

lemma getitem_valid_key:
  "length (keys_mv x) = length (values_mv x) \<Longrightarrow> Key k \<in> dom (bin2canon alg) \<Longrightarrow>
   getitem alg x (Key k) = Inr (case map_of (items x) k of None \<Rightarrow> 0 | Some v \<Rightarrow> v)"
  using index_of_zip [of "keys_mv x" "values_mv x" k]
  by (simp add: getitem_def resolve_def items_def)

lemma inv_k_floor: "inv_k alg = 2 ^ nat \<lfloor>(real (d alg) + 1) / 2\<rfloor>"
proof -
  have "\<lfloor>(real (d alg) + 1) / 2\<rfloor> = \<lfloor>real (d alg + 1) / real 2\<rfloor>"
    by (simp add: add.commute)
  also have "\<dots> = int ((d alg + 1) div 2)" by (rule floor_divide_of_nat_eq)
  finally show ?thesis by (simp add: inv_k_def)
qed

lemma map_of_items_sub_scalar:
  fixes x_i :: "('a::ab_group_add) MultiVector"
  assumes "wf_mv x_i"
  shows "map_of (items (sub x_i (Scalar c))) j =
     (if j = 0 then Some ((case map_of (items x_i) 0 of None \<Rightarrow> 0 | Some v \<Rightarrow> v) - c)
      else map_of (items x_i) j)"
proof -
  have w: "wf_mv (as_mv (Scalar (- c)))" by (simp add: as_mv_def wf_mv_def fromkeysvalues_def)
  have it: "items (as_mv (Scalar (- c))) = [(0, - c)]"
    by (simp add: as_mv_def items_def fromkeysvalues_def)
  show ?thesis
    using map_of_items_add [OF assms w, of j]
    by (simp add: sub_def it split: option.splits)
qed

text \<open>
  C2. \<^verbatim>\<open>codegen_inv\<close> takes the constant \<open>k = 2 ^ floor ((d + 1) / 2)\<close>. On a running
  term \<open>x_i\<close> with distinct keys, in an algebra where the scalar blade is a valid key, a pass
  of the loop reads \<open>s = x_i[0]\<close>, computes \<open>c_i = k * s / i\<close> and forms the adjoint by
  subtracting \<open>c_i\<close> from the scalar slot only: the adjoint holds \<open>s - c_i\<close> at key 0 and
  the coefficient of \<open>x_i\<close> at every other key.
\<close>

theorem codegen_inv_constant_and_adjoint:
  fixes alg :: "('a::field_char_0) Algebra"
  shows "inv_k alg = 2 ^ nat \<lfloor>(real (d alg) + 1) / 2\<rfloor> \<and>
    (wf_mv x_i \<and> Key 0 \<in> dom (bin2canon alg) \<longrightarrow>
       (\<exists>s adj. getitem alg x_i (Key 0) = Inr s \<and>
          inv_adjoint alg x_i i = Inr adj \<and>
          (\<forall>j. map_of (items adj) j =
             (if j = 0 then Some (s - of_nat (inv_k alg) * s / of_nat i)
              else map_of (items x_i) j))))"
proof (intro conjI impI)
  show "inv_k alg = 2 ^ nat \<lfloor>(real (d alg) + 1) / 2\<rfloor>" by (rule inv_k_floor)
next
  assume h: "wf_mv x_i \<and> Key 0 \<in> dom (bin2canon alg)"
  let ?s = "case map_of (items x_i) 0 of None \<Rightarrow> 0 | Some v \<Rightarrow> v"
  let ?c = "of_nat (inv_k alg) * ?s / of_nat i"
  have g: "getitem alg x_i (Key 0) = Inr ?s"
    using h by (simp add: getitem_valid_key wf_mv_def)
  have a: "inv_adjoint alg x_i i = Inr (sub x_i (Scalar ?c))"
    by (simp add: inv_adjoint_def g)
  have m: "map_of (items (sub x_i (Scalar ?c))) j =
      (if j = 0 then Some (?s - ?c) else map_of (items x_i) j)" for j
    using h by (simp add: map_of_items_sub_scalar)
  from g a m show "\<exists>s adj. getitem alg x_i (Key 0) = Inr s \<and>
          inv_adjoint alg x_i i = Inr adj \<and>
          (\<forall>j. map_of (items adj) j =
             (if j = 0 then Some (s - of_nat (inv_k alg) * s / of_nat i)
              else map_of (items x_i) j))"
    by blast
qed

theorem codegen_inv_constant_and_adjoint_witness:
  "wf_mv \<lparr>keys_mv = [0, 1], values_mv = [1, 2 :: rat]\<rparr> \<and>
   Key 0 \<in> dom (bin2canon plane) \<and>
   inv_k plane = 2 \<and>
   getitem plane \<lparr>keys_mv = [0, 1], values_mv = [1, 2]\<rparr> (Key 0) = Inr 1 \<and>
   inv_adjoint plane \<lparr>keys_mv = [0, 1], values_mv = [1, 2]\<rparr> 1 =
     Inr \<lparr>keys_mv = [0, 1], values_mv = [- 1, 2]\<rparr> \<and>
   map_of (items \<lparr>keys_mv = [0, 1], values_mv = [- 1, 2 :: rat]\<rparr>) 0 =
     Some (1 - of_nat (inv_k plane) * 1 / of_nat 1) \<and>
   map_of (items \<lparr>keys_mv = [0, 1], values_mv = [- 1, 2 :: rat]\<rparr>) 1 =
     map_of (items \<lparr>keys_mv = [0, 1], values_mv = [1, 2 :: rat]\<rparr>) 1"
proof -
  let ?X = "\<lparr>keys_mv = [0, 1], values_mv = [1, 2 :: rat]\<rparr>"
  let ?A = "\<lparr>keys_mv = [0, 1], values_mv = [- 1, 2 :: rat]\<rparr>"
  have w: "wf_mv ?X" by (simp add: wf_mv_def)
  have k0: "Key 0 \<in> dom (bin2canon plane)" by (simp add: plane_def)
  have k2: "inv_k plane = 2" by (simp add: inv_k_def plane_def)
  have g: "getitem plane ?X (Key 0) = Inr 1" by code_simp
  have a: "inv_adjoint plane ?X 1 = Inr ?A" by code_simp
  from codegen_inv_constant_and_adjoint [of plane ?X 1] w k0
  obtain s adj where "getitem plane ?X (Key 0) = Inr s" "inv_adjoint plane ?X 1 = Inr adj"
    and m: "\<forall>j. map_of (items adj) j =
             (if j = 0 then Some (s - of_nat (inv_k plane) * s / of_nat 1)
              else map_of (items ?X) j)"
    by blast
  with g a have "s = 1" "adj = ?A" by simp_all
  with m have "map_of (items ?A) 0 = Some (1 - of_nat (inv_k plane) * 1 / of_nat 1)"
    and "map_of (items ?A) 1 = map_of (items ?X) 1"
    by simp_all
  with w k0 k2 g a show ?thesis by blast
qed

text \<open>In the plane, \<open>d = 2\<close>: the code's constant is 2, the ceiling would give 4.\<close>

theorem inv_k_is_not_ceiling: "inv_k plane \<noteq> 2 ^ nat \<lceil>(real (d plane) + 1) / 2\<rceil>"
proof -
  have "\<lceil>(real (d plane) + 1) / 2\<rceil> = 2" by (simp add: plane_def ceiling_eq_iff)
  moreover have "inv_k plane = 2" by (simp add: inv_k_def plane_def)
  ultimately show ?thesis by simp
qed



end
